theory Spec2Isabelle
  imports Main "HOL-Library.AList"
begin

section \<open>Python values used by pronto\<close>

text \<open>
  Strings are lists of characters (code points below 256). Exceptions are values of
  the type \<open>error\<close>; a function that can raise returns \<open>error + 'a\<close>, with
  \<open>Inl\<close> for the exception. Dictionaries whose iteration order matters are
  association lists in insertion order.
\<close>

datatype error =
    TypeError string
  | ValueError string
  | NameError string
  | AttributeError string
  | KeyError string

subsection \<open>String methods\<close>

text \<open>\<open>s.startswith(p)\<close>.\<close>

definition startswith :: "string \<Rightarrow> string \<Rightarrow> bool" where
  "startswith s p = (take (length p) s = p)"

text \<open>
  \<open>s.replace(old, new)\<close>: the occurrences of \<open>old\<close> are found scanning from the
  left and do not overlap. For the empty \<open>old\<close> Python puts \<open>new\<close> before every
  character and at the end.
\<close>

fun replace_scan :: "string \<Rightarrow> string \<Rightarrow> string \<Rightarrow> string" where
  "replace_scan old new [] = []"
| "replace_scan old new (c # cs) =
     (if startswith (c # cs) old
      then new @ replace_scan old new (drop (length old - 1) cs)
      else c # replace_scan old new cs)"

definition str_replace :: "string \<Rightarrow> string \<Rightarrow> string \<Rightarrow> string" where
  "str_replace s old new =
     (if old = [] then new @ concat (map (\<lambda>c. c # new) s)
      else replace_scan old new s)"

text \<open>\<open>sub in s\<close> on strings.\<close>

fun contains :: "string \<Rightarrow> string \<Rightarrow> bool" where
  "contains sub [] = (sub = [])"
| "contains sub (c # cs) = (startswith (c # cs) sub \<or> contains sub cs)"

text \<open>
  \<open>s.strip()\<close>: the characters Python takes for whitespace among the code points
  below 256.
\<close>

definition whitespace :: "char list" where
  "whitespace = [CHR 0x09, CHR 0x0A, CHR 0x0B, CHR 0x0C, CHR 0x0D, CHR 0x1C, CHR 0x1D,
     CHR 0x1E, CHR 0x1F, CHR 0x20, CHR 0x85, CHR 0xA0]"

definition is_space :: "char \<Rightarrow> bool" where
  "is_space c = (c \<in> set whitespace)"

definition strip :: "string \<Rightarrow> string" where
  "strip s = rev (dropWhile is_space (rev (dropWhile is_space s)))"

text \<open>
  \<open>s.split(sep)\<close> for a non-empty separator (the source only passes the literals
  \<open>'\n'\<close> and \<open>'def:'\<close>).
\<close>

fun str_split :: "string \<Rightarrow> string \<Rightarrow> string list" where
  "str_split sep [] = [[]]"
| "str_split sep (c # cs) =
     (if startswith (c # cs) sep then [] # str_split sep (drop (length sep - 1) cs)
      else (case str_split sep cs of
              [] \<Rightarrow> [[c]]
            | piece # pieces \<Rightarrow> (c # piece) # pieces))"

text \<open>
  \<open>s.split(sep, 1)\<close> when it gives two pieces: the text before and after the first
  occurrence of \<open>sep\<close>; \<open>None\<close> when \<open>sep\<close> does not occur and the list has one
  piece only.
\<close>

fun split_once :: "string \<Rightarrow> string \<Rightarrow> (string \<times> string) option" where
  "split_once sep [] = None"
| "split_once sep (c # cs) =
     (if startswith (c # cs) sep then Some ([], drop (length sep - 1) cs)
      else (case split_once sep cs of
              None \<Rightarrow> None
            | Some (lhs, rhs) \<Rightarrow> Some (c # lhs, rhs)))"

text \<open>\<open>sep.join(pieces)\<close>.\<close>

fun join :: "string \<Rightarrow> string list \<Rightarrow> string" where
  "join sep [] = []"
| "join sep [piece] = piece"
| "join sep (piece # more) = piece @ sep @ join sep more"

definition newline :: string where
  "newline = [CHR 0x0A]"

section \<open>pronto.utils.format_accession\<close>

type_synonym nsmap = "(string \<times> string) list"

text \<open>\<open>nsmap.values()\<close>, for the optional argument \<open>nsmap=None\<close>.\<close>

fun dict_values :: "nsmap option \<Rightarrow> string list" where
  "dict_values None = []"
| "dict_values (Some m) = map snd m"

text \<open>
  The loop \<open>for v in nsmap.values(): accession = accession.replace(v, '')\<close>, skipped
  when \<open>nsmap is None\<close>.
\<close>

definition strip_namespaces :: "nsmap option \<Rightarrow> string \<Rightarrow> string" where
  "strip_namespaces nsmap accession =
     fold (\<lambda>v a. str_replace a v []) (dict_values nsmap) accession"

definition format_accession :: "string \<Rightarrow> nsmap option \<Rightarrow> string" where
  "format_accession accession nsmap =
     (let accession = strip_namespaces nsmap accession
      in if \<not> startswith accession ''_'' then str_replace accession ''_'' '':''
         else accession)"

text \<open>
  The call as Python sees it: the argument may be \<open>None\<close> (what \<open>element.get\<close>
  returns for a missing attribute), and then \<open>accession.replace\<close> or
  \<open>accession.startswith\<close> raises AttributeError.
\<close>

fun format_accession_py :: "string option \<Rightarrow> nsmap option \<Rightarrow> error + string" where
  "format_accession_py None nsmap = Inl (AttributeError ''NoneType'')"
| "format_accession_py (Some accession) nsmap = Inr (format_accession accession nsmap)"

text \<open>Every underscore turned into a colon, the other characters kept.\<close>

definition colonize :: "string \<Rightarrow> string" where
  "colonize s = map (\<lambda>c. if c = CHR ''_'' then CHR '':'' else c) s"

section \<open>pronto.utils.parse_comment\<close>

text \<open>
  The values the parsed dictionary holds: a string, or a list of strings. The dictionary
  \<open>parsed\<close> has the two optional keys \<open>'desc'\<close> and \<open>'other'\<close>; \<open>None\<close> is an
  absent key.
\<close>

datatype pyval = Str string | StrList "string list"

type_synonym pydict = "(string \<times> pyval) list"

record parsed =
  desc :: "pyval option"
  other :: "pydict option"

definition empty_parsed :: parsed where
  "empty_parsed = \<lparr>desc = None, other = None\<rparr>"

text \<open>
  The body of the \<open>for\<close> loop over \<open>enumerate(commentlines)\<close>; the lines from
  \<open>index\<close> on are the argument, so that \<open>commentlines[index:]\<close> is the whole of it.
  A \<open>break\<close> returns the dictionary as it is.
\<close>

fun parse_lines :: "parsed \<Rightarrow> string list \<Rightarrow> error + parsed" where
  "parse_lines p [] = Inr p"
| "parse_lines p (l # ls) =
     (let line = strip l in
      if startswith line ''Functional form:'' then
        (case other p of
           None \<Rightarrow>
             Inr (p\<lparr>other := Some [(''functional form'', Str (join newline (l # ls)))]\<rparr>)
         | Some d \<Rightarrow>
             Inr (p\<lparr>other :=
                    Some (AList.update ''functional form'' (Str (join newline (l # ls))) d)\<rparr>))
      else if startswith line ''def:'' then
        parse_lines (p\<lparr>desc := Some (Str (strip (last (str_split ''def:'' line))))\<rparr>) ls
      else if contains '': '' line then
        (case split_once '': '' line of
           None \<Rightarrow> Inl (ValueError ''not enough values to unpack'')
         | Some (lhs, rhs) \<Rightarrow>
             (let ref = strip lhs; value = strip rhs in
              case other p of
                None \<Rightarrow> parse_lines (p\<lparr>other := Some [(ref, StrList [value])]\<rparr>) ls
              | Some d \<Rightarrow>
                  (case map_of d ref of
                     None \<Rightarrow>
                       parse_lines (p\<lparr>other := Some (AList.update ref (StrList [value]) d)\<rparr>) ls
                   | Some (StrList vs) \<Rightarrow>
                       parse_lines
                         (p\<lparr>other := Some (AList.update ref (StrList (vs @ [value])) d)\<rparr>) ls
                   | Some (Str s) \<Rightarrow> Inl (AttributeError ''str''))))
      else if desc p = None then Inr (p\<lparr>desc := Some (Str (join newline (l # ls)))\<rparr>)
      else parse_lines p ls)"

text \<open>
  The two \<open>try\<close> blocks after the loop, run when \<open>'desc'\<close> is absent and \<open>'other'\<close>
  present: first \<open>'tempdef'\<close>, then \<open>'altdef'\<close>.
\<close>

definition post_pass :: "parsed \<Rightarrow> parsed" where
  "post_pass p =
     (case (desc p, other p) of
        (None, Some d) \<Rightarrow>
          (let (p1, d1) =
                 (case map_of d ''tempdef'' of
                    None \<Rightarrow> (p, d)
                  | Some v \<Rightarrow>
                      (p\<lparr>desc := Some v, other := Some (AList.delete ''tempdef'' d)\<rparr>,
                       AList.delete ''tempdef'' d))
           in case map_of d1 ''altdef'' of
                None \<Rightarrow> p1
              | Some v \<Rightarrow> p1\<lparr>desc := Some v, other := Some (AList.delete ''altdef'' d1)\<rparr>)
      | _ \<Rightarrow> p)"

fun parse_comment :: "string option \<Rightarrow> error + parsed" where
  "parse_comment None = Inr empty_parsed"
| "parse_comment (Some comment) =
     (case parse_lines empty_parsed (str_split newline comment) of
        Inl e \<Rightarrow> Inl e
      | Inr p \<Rightarrow> Inr (post_pass p))"

section \<open>pronto.parser.owl: the classifier's own parse_comment\<close>

text \<open>
  The static method \<open>_OwlXMLClassifier.parse_comment\<close>, translated on its own from
  the text of the class: the loop, the two \<open>try\<close> blocks behind it, and the method.
\<close>

fun classifier_parse_lines :: "parsed \<Rightarrow> string list \<Rightarrow> error + parsed" where
  "classifier_parse_lines p [] = Inr p"
| "classifier_parse_lines p (l # ls) =
     (let line = strip l in
      if startswith line ''Functional form:'' then
        (case other p of
           None \<Rightarrow>
             Inr (p\<lparr>other := Some [(''functional form'', Str (join newline (l # ls)))]\<rparr>)
         | Some d \<Rightarrow>
             Inr (p\<lparr>other :=
                    Some (AList.update ''functional form'' (Str (join newline (l # ls))) d)\<rparr>))
      else if startswith line ''def:'' then
        classifier_parse_lines
          (p\<lparr>desc := Some (Str (strip (last (str_split ''def:'' line))))\<rparr>) ls
      else if contains '': '' line then
        (case split_once '': '' line of
           None \<Rightarrow> Inl (ValueError ''not enough values to unpack'')
         | Some (lhs, rhs) \<Rightarrow>
             (let ref = strip lhs; value = strip rhs in
              case other p of
                None \<Rightarrow>
                  classifier_parse_lines (p\<lparr>other := Some [(ref, StrList [value])]\<rparr>) ls
              | Some d \<Rightarrow>
                  (case map_of d ref of
                     None \<Rightarrow>
                       classifier_parse_lines
                         (p\<lparr>other := Some (AList.update ref (StrList [value]) d)\<rparr>) ls
                   | Some (StrList vs) \<Rightarrow>
                       classifier_parse_lines
                         (p\<lparr>other := Some (AList.update ref (StrList (vs @ [value])) d)\<rparr>) ls
                   | Some (Str s) \<Rightarrow> Inl (AttributeError ''str''))))
      else if desc p = None then Inr (p\<lparr>desc := Some (Str (join newline (l # ls)))\<rparr>)
      else classifier_parse_lines p ls)"

definition classifier_post_pass :: "parsed \<Rightarrow> parsed" where
  "classifier_post_pass p =
     (case (desc p, other p) of
        (None, Some d) \<Rightarrow>
          (let (p1, d1) =
                 (case map_of d ''tempdef'' of
                    None \<Rightarrow> (p, d)
                  | Some v \<Rightarrow>
                      (p\<lparr>desc := Some v, other := Some (AList.delete ''tempdef'' d)\<rparr>,
                       AList.delete ''tempdef'' d))
           in case map_of d1 ''altdef'' of
                None \<Rightarrow> p1
              | Some v \<Rightarrow> p1\<lparr>desc := Some v, other := Some (AList.delete ''altdef'' d1)\<rparr>)
      | _ \<Rightarrow> p)"

fun classifier_parse_comment :: "string option \<Rightarrow> error + parsed" where
  "classifier_parse_comment None = Inr \<lparr>desc = None, other = None\<rparr>"
| "classifier_parse_comment (Some comment) =
     (case classifier_parse_lines \<lparr>desc = None, other = None\<rparr> (str_split newline comment) of
        Inl e \<Rightarrow> Inl e
      | Inr p \<Rightarrow> Inr (classifier_post_pass p))"

section \<open>pronto.parser.owl: classification of a queued element\<close>

text \<open>
  An element of the XML tree as \<open>etree\<close> gives it: the tag and the attribute names
  in the form \<open>{uri}local\<close>, the text (\<open>None\<close> for an element without text) and the
  children. \<open>iter\<close> is \<open>element.iter()\<close>: the element itself, then its descendants
  in document order.
\<close>

datatype element =
  Element (tag: string) (attrib: "(string \<times> string) list") (elem_text: "string option")
    (children: "element list")

fun iter :: "element \<Rightarrow> element list" where
  "iter (Element t a x cs) = Element t a x cs # concat (map iter cs)"

text \<open>
  \<open>pronto.utils.explicit_namespace\<close>: the unpacking of \<open>attr.split(':', 1)\<close> raises
  ValueError when there is no colon, \<open>nsmap[prefix]\<close> raises KeyError.
\<close>

definition explicit_namespace :: "string \<Rightarrow> nsmap \<Rightarrow> error + string" where
  "explicit_namespace attr nsmap =
     (case split_once '':'' attr of
        None \<Rightarrow> Inl (ValueError ''not enough values to unpack'')
      | Some (prefix, term) \<Rightarrow>
          (case map_of nsmap prefix of
             None \<Rightarrow> Inl (KeyError prefix)
           | Some uri \<Rightarrow> Inr (''{'' @ uri @ ''}'' @ term)))"

text \<open>The namespace map of \<open>_OwlXMLClassifier.__init__\<close> and its two partial functions.\<close>

definition classifier_nsmap :: nsmap where
  "classifier_nsmap =
     [(''rdf'', ''http://www.w3.org/1999/02/22-rdf-syntax-ns#''),
      (''rdfs'', ''http://www.w3.org/2000/01/rdf-schema#'')]"

definition nspaced :: "string \<Rightarrow> error + string" where
  "nspaced attr = explicit_namespace attr classifier_nsmap"

definition accession :: "string option \<Rightarrow> error + string" where
  "accession a = format_accession_py a (Some classifier_nsmap)"

text \<open>
  \<open>c.tag == self.nspaced(attr)\<close>, \<open>c.get(self.nspaced(attr))\<close> and
  \<open>self.nspaced(attr) in c.attrib\<close>. The source calls \<open>nspaced\<close> on five literals
  only, and on each of them it returns a name (lemma \<open>nspaced_literals\<close>).
\<close>

definition is_tag :: "element \<Rightarrow> string \<Rightarrow> bool" where
  "is_tag c attr = (nspaced attr = Inr (tag c))"

definition get_attr :: "element \<Rightarrow> string \<Rightarrow> string option" where
  "get_attr c attr = (case nspaced attr of Inl e \<Rightarrow> None | Inr k \<Rightarrow> map_of (attrib c) k)"

definition has_attr :: "element \<Rightarrow> string \<Rightarrow> bool" where
  "has_attr c attr = (get_attr c attr \<noteq> None)"

text \<open>Python's \<open>a or b\<close> on two values that are strings or \<open>None\<close>.\<close>

definition py_or :: "string option \<Rightarrow> string option \<Rightarrow> string option" where
  "py_or a b = (case a of None \<Rightarrow> b | Some s \<Rightarrow> if s = [] then b else Some s)"

text \<open>
  \<open>term_dict\<close>: the keys \<open>'desc'\<close> and \<open>'other'\<close> of a parsed comment, and the keys
  \<open>'name'\<close> (a string, or \<open>None\<close> when the label has no text) and \<open>'relations'\<close>.
\<close>

record term_dict = parsed +
  name :: "string option"
  relations :: "(string \<times> string list) list"

definition init_term_dict :: term_dict where
  "init_term_dict = \<lparr>desc = Some (Str []), other = None, name = Some [], relations = []\<rparr>"

text \<open>\<open>term_dict.update(parsed)\<close>: the keys of \<open>parsed\<close> overwrite those of \<open>term_dict\<close>.\<close>

definition dict_update :: "term_dict \<Rightarrow> parsed \<Rightarrow> term_dict" where
  "dict_update d p =
     (let d1 = (case desc p of None \<Rightarrow> d | Some v \<Rightarrow> d\<lparr>desc := Some v\<rparr>)
      in case other p of None \<Rightarrow> d1 | Some x \<Rightarrow> d1\<lparr>other := Some x\<rparr>)"

text \<open>The callback of the second rule: the target of a \<open>subClassOf\<close> element.\<close>

definition target :: "element \<Rightarrow> error + string" where
  "target c = accession (py_or (get_attr c ''rdf:resource'') (get_attr c ''rdf:about''))"

text \<open>
  The three rules of \<open>translator\<close> applied to one element, in their order and with no
  \<open>break\<close> between them: store, list, update.
\<close>

definition apply_rules :: "term_dict \<Rightarrow> element \<Rightarrow> error + term_dict" where
  "apply_rules d c =
     (let d1 = (if is_tag c ''rdfs:label'' then d\<lparr>name := elem_text c\<rparr> else d) in
      case (if is_tag c ''rdfs:subClassOf'' \<and> has_attr c ''rdf:resource'' then
              (case target c of
                 Inl e \<Rightarrow> Inl e
               | Inr t \<Rightarrow>
                   (case map_of (relations d1) ''is_a'' of
                      None \<Rightarrow>
                        Inr (d1\<lparr>relations := AList.update ''is_a'' [t] (relations d1)\<rparr>)
                    | Some ts \<Rightarrow>
                        Inr (d1\<lparr>relations :=
                               AList.update ''is_a'' (ts @ [t]) (relations d1)\<rparr>)))
            else Inr d1) of
        Inl e \<Rightarrow> Inl e
      | Inr d2 \<Rightarrow>
          (if is_tag c ''rdfs:comment'' then
             (case classifier_parse_comment (elem_text c) of
                Inl e \<Rightarrow> Inl e
              | Inr p \<Rightarrow> Inr (dict_update d2 p))
           else Inr d2))"

fun classify_loop :: "term_dict \<Rightarrow> element list \<Rightarrow> error + term_dict" where
  "classify_loop d [] = Inr d"
| "classify_loop d (c # cs) =
     (case apply_rules d c of
        Inl e \<Rightarrow> Inl e
      | Inr d' \<Rightarrow> classify_loop d' cs)"

text \<open>
  \<open>_OwlXMLClassifier._classify\<close>: \<open>Inr None\<close> is the empty dictionary returned for
  an element without attributes, \<open>Inr (Some (tid, term_dict))\<close> the pair.
\<close>

definition classify :: "element \<Rightarrow> error + (string \<times> term_dict) option" where
  "classify term =
     (if attrib term = [] then Inr None
      else case accession (get_attr term ''rdf:about'') of
             Inl e \<Rightarrow> Inl e
           | Inr tid \<Rightarrow>
               (case classify_loop init_term_dict (iter term) of
                  Inl e \<Rightarrow> Inl e
                | Inr d \<Rightarrow> Inr (Some (tid, d))))"

section \<open>pronto.parser.owl: the worker loop and makeTree\<close>

text \<open>
  What a worker puts on the result queue: the pair \<open>(tid, term_dict)\<close> of a classified
  element, or the pair \<open>(None, None)\<close> after a parse error.
\<close>

datatype result = Classified string term_dict | Failed



text \<open>
  \<open>Relationship(k)\<close> and \<open>pronto.term.Term(tid, **d)\<close>: the two classes are not part of
  these sources, so a term is the constructor applied to its arguments.
\<close>

datatype relationship = Relationship string

datatype "term" =
  Term (term_id: string) (term_name: "string option")
    (term_relations: "(relationship \<times> string list) list")
    (term_desc: "pyval option") (term_other: "pydict option")

text \<open>
  What the body of the loop of \<open>OwlXMLParser.makeTree\<close> does with the results it
  reads, in the order it reads them: it stores each record, and stops at the pair
  \<open>(None, None)\<close>. The argument is the list of the results the loop reads and no more;
  where that list ends is the matter of the loop condition, which \<open>makeTree\<close> below
  has. \<open>ns\<close> is \<open>self._ns\<close>, \<open>terms\<close> is \<open>self.terms\<close>.
\<close>

fun makeTree_loop :: "nsmap \<Rightarrow> (string \<rightharpoonup> term) \<Rightarrow> result list \<Rightarrow> (string \<rightharpoonup> term)" where
  "makeTree_loop ns terms [] = terms"
| "makeTree_loop ns terms (Failed # queue) = terms"
| "makeTree_loop ns terms (Classified tid d # queue) =
     (let tid' = format_accession tid (Some ns);
          rels = map (\<lambda>(k, v). (Relationship k, map (\<lambda>x. format_accession x (Some ns)) v))
                   (relations d)
      in makeTree_loop ns (terms(tid' \<mapsto> Term tid' (name d) rels (desc d) (other d))) queue)"



section \<open>pronto.entity\<close>

text \<open>
  The values a caller can put into the set it assigns to a field: a string, an instance
  of \<open>Synonym\<close> or of \<open>Xref\<close>, or something else (an integer, \<open>None\<close>). The argument
  of a setter is a \<open>set\<close> or a \<open>frozenset\<close>, given by its elements in the order the
  iteration meets them, or a value of another type, given by the name of its type.
\<close>

datatype elem = EStr string | ESynonym string | EXref string | EInt int | ENone

datatype pyarg = PySet "elem list" | PyFrozenSet "elem list" | PyOther string

fun elems :: "pyarg \<Rightarrow> elem list" where
  "elems (PySet xs) = xs"
| "elems (PyFrozenSet xs) = xs"
| "elems (PyOther tn) = []"

text \<open>\<open>type(x).__name__\<close>, and the three \<open>isinstance\<close> tests of the setters.\<close>

fun type_name :: "elem \<Rightarrow> string" where
  "type_name (EStr s) = ''str''"
| "type_name (ESynonym s) = ''Synonym''"
| "type_name (EXref s) = ''Xref''"
| "type_name (EInt i) = ''int''"
| "type_name ENone = ''NoneType''"

fun is_str :: "elem \<Rightarrow> bool" where
  "is_str (EStr s) = True"
| "is_str x = False"

fun is_Synonym :: "elem \<Rightarrow> bool" where
  "is_Synonym (ESynonym s) = True"
| "is_Synonym x = False"

fun is_Xref :: "elem \<Rightarrow> bool" where
  "is_Xref (EXref s) = True"
| "is_Xref x = False"

text \<open>
  The owning ontology, as far as the entity reads it: the ids of the SubsetDefs of
  \<open>metadata.subsetdefs\<close>. The record behind a view, with its id and its four
  set-valued fields.
\<close>

record ontology =
  subsetdefs :: "string list"

record entity_data =
  data_id :: string
  alternate_ids :: "elem set"
  subsets :: "elem set"
  synonyms :: "elem set"
  xrefs :: "elem set"

text \<open>
  An \<open>Entity\<close> holds two weak references; \<open>None\<close> is a reference whose referent is
  gone, on which every attribute access raises AttributeError.
\<close>

record entity =
  ontology_ref :: "ontology option"
  data_ref :: "entity_data option"

text \<open>
  The setters return the record as the assignment leaves it. The checks under
  \<open>if __debug__:\<close> are run (Python started without \<open>-O\<close>). A TypeError carries the
  type name put into its message, a ValueError the subset. In the \<open>xrefs\<close> setter the
  generator iterates over the name \<open>synonyms\<close>, which is not bound there.
\<close>

definition set_alternate_ids :: "entity \<Rightarrow> pyarg \<Rightarrow> error + entity_data" where
  "set_alternate_ids self ids =
     (case ids of
        PyOther tn \<Rightarrow> Inl (TypeError tn)
      | _ \<Rightarrow>
          (case filter is_str (elems ids) of
             x # rest \<Rightarrow> Inl (TypeError (type_name x))
           | [] \<Rightarrow>
               (case data_ref self of
                  None \<Rightarrow> Inl (AttributeError ''NoneType'')
                | Some d \<Rightarrow> Inr (d\<lparr>alternate_ids := set (elems ids)\<rparr>))))"

fun show_elem :: "elem \<Rightarrow> string" where
  "show_elem (EStr s) = s"
| "show_elem x = type_name x"

fun check_subsets :: "entity \<Rightarrow> elem list \<Rightarrow> error + unit" where
  "check_subsets self [] = Inr ()"
| "check_subsets self (sub # rest) =
     (case ontology_ref self of
        None \<Rightarrow> Inl (AttributeError ''NoneType'')
      | Some ont \<Rightarrow>
          if \<not> list_ex (\<lambda>subsetdef_id. sub = EStr subsetdef_id) (subsetdefs ont)
          then Inl (ValueError (show_elem sub))
          else check_subsets self rest)"

definition set_subsets :: "entity \<Rightarrow> pyarg \<Rightarrow> error + entity_data" where
  "set_subsets self arg =
     (case arg of
        PyOther tn \<Rightarrow> Inl (TypeError tn)
      | _ \<Rightarrow>
          (case filter (\<lambda>x. \<not> is_str x) (elems arg) of
             x # rest \<Rightarrow> Inl (TypeError (type_name x))
           | [] \<Rightarrow>
               (case check_subsets self (elems arg) of
                  Inl e \<Rightarrow> Inl e
                | Inr u \<Rightarrow>
                    (case data_ref self of
                       None \<Rightarrow> Inl (AttributeError ''NoneType'')
                     | Some d \<Rightarrow> Inr (d\<lparr>subsets := set (elems arg)\<rparr>)))))"

definition get_subsets :: "entity \<Rightarrow> error + elem set" where
  "get_subsets self =
     (case data_ref self of
        None \<Rightarrow> Inl (AttributeError ''NoneType'')
      | Some d \<Rightarrow> Inr (subsets d))"

definition set_synonyms :: "entity \<Rightarrow> pyarg \<Rightarrow> error + entity_data" where
  "set_synonyms self arg =
     (case arg of
        PyOther tn \<Rightarrow> Inl (TypeError tn)
      | _ \<Rightarrow>
          (case filter (\<lambda>x. \<not> is_Synonym x) (elems arg) of
             x # rest \<Rightarrow> Inl (TypeError (type_name x))
           | [] \<Rightarrow>
               (case data_ref self of
                  None \<Rightarrow> Inl (AttributeError ''NoneType'')
                | Some d \<Rightarrow> Inr (d\<lparr>synonyms := set (elems arg)\<rparr>))))"

definition set_xrefs :: "entity \<Rightarrow> pyarg \<Rightarrow> error + entity_data" where
  "set_xrefs self arg =
     (case arg of
        PyOther tn \<Rightarrow> Inl (TypeError tn)
      | _ \<Rightarrow> Inl (NameError ''synonyms''))"

text \<open>
  The property \<open>id\<close>, \<open>__eq__\<close> and \<open>__hash__\<close>. The right-hand side of \<open>==\<close> is
  an entity or a value of another class. \<open>hash\<close> on strings is a parameter.
\<close>

datatype pyobj = EntityObj entity | OtherObj elem

definition entity_id :: "entity \<Rightarrow> error + string" where
  "entity_id self =
     (case data_ref self of
        None \<Rightarrow> Inl (AttributeError ''NoneType'')
      | Some d \<Rightarrow> Inr (data_id d))"

definition entity_eq :: "entity \<Rightarrow> pyobj \<Rightarrow> error + bool" where
  "entity_eq self rhs =
     (case rhs of
        OtherObj x \<Rightarrow> Inr False
      | EntityObj e \<Rightarrow>
          (case entity_id self of
             Inl err \<Rightarrow> Inl err
           | Inr a \<Rightarrow>
               (case entity_id e of
                  Inl err \<Rightarrow> Inl err
                | Inr b \<Rightarrow> Inr (a = b))))"

definition entity_hash :: "(string \<Rightarrow> int) \<Rightarrow> entity \<Rightarrow> error + int" where
  "entity_hash hash self =
     (case entity_id self of
        Inl err \<Rightarrow> Inl err
      | Inr a \<Rightarrow> Inr (hash a))"

section \<open>Notions used in the statements\<close>















text \<open>
  The key \<open>makeTree\<close> writes for a result, and the keys a list of results writes. The
  term \<open>makeTree\<close> builds from a record. The last record of a list that is stored under
  a key.
\<close>

fun result_ids :: "nsmap \<Rightarrow> result list \<Rightarrow> string set" where
  "result_ids ns [] = {}"
| "result_ids ns (Failed # rs) = result_ids ns rs"
| "result_ids ns (Classified tid d # rs) =
     insert (format_accession tid (Some ns)) (result_ids ns rs)"





text \<open>
  What the worker makes of one item of its queue: \<open>None\<close> when the item ends the loop
  (the sentinel, a parse error, an exception of the classification), otherwise what
  \<open>_classify\<close> returned. The items before the point where the loop ends, the results
  the worker has put on the queue for them, and how the loop ends.
\<close>

definition classified :: "(string \<Rightarrow> element option) \<Rightarrow> string option
    \<Rightarrow> (string \<times> term_dict) option option" where
  "classified fromstring item =
     (case item of
        None \<Rightarrow> None
      | Some s \<Rightarrow>
          (case fromstring s of
             None \<Rightarrow> None
           | Some el \<Rightarrow> (case classify el of Inl e \<Rightarrow> None | Inr r \<Rightarrow> Some r)))"

definition before_stop :: "(string \<Rightarrow> element option) \<Rightarrow> string option list
    \<Rightarrow> string option list" where
  "before_stop fromstring queue = takeWhile (\<lambda>item. classified fromstring item \<noteq> None) queue"

definition emitted :: "(string \<Rightarrow> element option) \<Rightarrow> string option list \<Rightarrow> result list" where
  "emitted fromstring queue =
     concat (map (\<lambda>item. case classified fromstring item of
                           Some (Some (tid, d)) \<Rightarrow> [Classified tid d]
                         | _ \<Rightarrow> [])
               (before_stop fromstring queue))"


section \<open>Notions used in the proofs\<close>

text \<open>Inside the loop of \<open>parse_comment\<close> every value of \<open>'other'\<close> is a list.\<close>

definition lists_only :: "parsed \<Rightarrow> bool" where
  "lists_only p =
     (case other p of
        None \<Rightarrow> True
      | Some d \<Rightarrow> list_all (\<lambda>kv. case snd kv of StrList vs \<Rightarrow> True | Str s \<Rightarrow> False) d)"





fun returns :: "error + 'a \<Rightarrow> bool" where
  "returns (Inl e) = False"
| "returns (Inr v) = True"

section \<open>Properties of the string methods\<close>

lemma startswith_set: "startswith s p \<Longrightarrow> set p \<subseteq> set s"
  unfolding startswith_def by (metis set_take_subset)

lemma replace_scan_absent:
  "c \<in> set old \<Longrightarrow> c \<notin> set s \<Longrightarrow> replace_scan old new s = s"
proof (induction s)
  case Nil
  then show ?case by simp
next
  case (Cons a s)
  have "\<not> startswith (a # s) old"
    using Cons.prems startswith_set by blast
  with Cons show ?case by simp
qed

lemma str_replace_absent:
  "c \<in> set old \<Longrightarrow> c \<notin> set s \<Longrightarrow> str_replace s old new = s"
  unfolding str_replace_def using replace_scan_absent by auto

lemma replace_scan_underscore: "replace_scan ''_'' '':'' s = colonize s"
  by (induction s) (auto simp: startswith_def colonize_def)

lemma str_replace_underscore: "str_replace s ''_'' '':'' = colonize s"
  by (simp add: str_replace_def replace_scan_underscore)

lemma replace_scan_not_contains:
  "\<not> contains old s \<Longrightarrow> old \<noteq> [] \<Longrightarrow> replace_scan old new s = s"
  by (induction s) auto

lemma str_replace_not_contains:
  "old = [] \<or> \<not> contains old s \<Longrightarrow> str_replace s old [] = s"
  by (auto simp: str_replace_def replace_scan_not_contains)

lemma str_replace_leading:
  "v \<noteq> [] \<Longrightarrow> str_replace (v @ rest) v [] = str_replace rest v []"
  by (cases v) (auto simp: str_replace_def startswith_def)

lemma fold_strip_id:
  "(\<forall>v \<in> set vs. v = [] \<or> \<not> contains v raw) \<Longrightarrow>
     fold (\<lambda>v a. str_replace a v []) vs raw = raw"
  by (induction vs) (auto simp: str_replace_not_contains)

lemma fold_strip_absent:
  "(\<forall>v \<in> set vs. \<exists>c \<in> set v. c \<notin> set s) \<Longrightarrow>
     fold (\<lambda>v a. str_replace a v []) vs s = s"
  by (induction vs) (auto simp: str_replace_absent)

lemma colonize_idem: "colonize (colonize s) = colonize s"
  by (simp add: colonize_def)

lemma set_colonize: "set (colonize s) \<subseteq> insert (CHR '':'') (set s)"
  by (auto simp: colonize_def)

lemma startswith_colonize:
  "\<not> startswith s ''_'' \<Longrightarrow> \<not> startswith (colonize s) ''_''"
  by (cases s) (auto simp: startswith_def colonize_def)

lemma format_accession_shape:
  "format_accession raw nsmap =
     (let s = strip_namespaces nsmap raw
      in if startswith s ''_'' then s else colonize s)"
  by (simp add: format_accession_def str_replace_underscore Let_def)

section \<open>Accession normalisation\<close>

text \<open>
  C3, as the claim states it, fails: the claim has exactly the first underscore
  replaced, so that \<open>A_B_C\<close> would become \<open>A:B_C\<close>; \<open>accession.replace('_', ':')\<close>
  replaces every underscore.
\<close>

theorem format_accession_first_underscore_counterexample:
  "format_accession ''A_B_C'' None = ''A:B:C'' \<and>
   format_accession ''A_B_C'' None \<noteq> ''A:B_C''"
  by (simp add: format_accession_def strip_namespaces_def str_replace_def startswith_def)

text \<open>
  C3 (amended): \<open>format_accession\<close> returns a value for every string and every
  namespace map (also \<open>None\<close>). With \<open>s\<close> the input after every occurrence of each
  bound URI has been deleted, in the order of the map, the result is \<open>s\<close> itself when
  \<open>s\<close> starts with an underscore, and otherwise \<open>s\<close> with every underscore replaced
  by a colon. An input in which no non-empty bound URI occurs is not changed by the
  deletion, and a URI at the head of the input, bound by a one-entry map, is removed.
\<close>

theorem format_accession_total:
  "format_accession_py (Some raw) nsmap = Inr (format_accession raw nsmap) \<and>
   format_accession raw nsmap =
     (let s = strip_namespaces nsmap raw
      in if startswith s ''_'' then s else colonize s) \<and>
   ((\<forall>v \<in> set (dict_values nsmap). v = [] \<or> \<not> contains v raw) \<longrightarrow>
      strip_namespaces nsmap raw = raw) \<and>
   (v \<noteq> [] \<longrightarrow>
      format_accession (v @ rest) (Some [(p, v)]) = format_accession rest (Some [(p, v)]))"
proof (intro conjI impI)
  show "format_accession_py (Some raw) nsmap = Inr (format_accession raw nsmap)"
    by simp
  show "format_accession raw nsmap =
     (let s = strip_namespaces nsmap raw
      in if startswith s ''_'' then s else colonize s)"
    by (rule format_accession_shape)
  show "strip_namespaces nsmap raw = raw"
    if "\<forall>v \<in> set (dict_values nsmap). v = [] \<or> \<not> contains v raw"
    unfolding strip_namespaces_def using that by (rule fold_strip_id)
  show "format_accession (v @ rest) (Some [(p, v)]) = format_accession rest (Some [(p, v)])"
    if "v \<noteq> []"
    using that by (simp add: format_accession_def strip_namespaces_def str_replace_leading)
qed

theorem format_accession_total_witness:
  "format_accession_py (Some ''_:b1_x'') (Some [(''obo'', ''http://purl.obolibrary.org/obo/'')])
     = Inr ''_:b1_x'' \<and>
   format_accession (''http://purl.obolibrary.org/obo/'' @ ''IAO_0000601'')
     (Some [(''obo'', ''http://purl.obolibrary.org/obo/'')]) = ''IAO:0000601''"
proof -
  let ?uri = "''http://purl.obolibrary.org/obo/''"
  have absent: "\<forall>v \<in> set (dict_values (Some [(''obo'', ?uri)])). v = [] \<or> \<not> contains v ''_:b1_x''"
    by (simp add: startswith_def)
  have nonempty: "?uri \<noteq> []"
    by simp
  have local: "format_accession ''IAO_0000601'' (Some [(''obo'', ?uri)]) = ''IAO:0000601''"
    by (simp add: format_accession_def strip_namespaces_def str_replace_def startswith_def)
  from format_accession_total [of "''_:b1_x''" "Some [(''obo'', ?uri)]" ?uri "''IAO_0000601''" "''obo''"]
  show ?thesis
    using absent nonempty local by (simp add: startswith_def)
qed

text \<open>
  C4, as the claim states it, fails: the claim quantifies over every namespace map. The
  underscore form \<open>GO_0000001\<close> becomes \<open>GO:0000001\<close>, and when the map binds a URI
  that occurs in that result (here \<open>GO:\<close>) a second call deletes it.
\<close>

theorem format_accession_idempotent_counterexample:
  "format_accession ''GO_0000001'' (Some [(''go'', ''GO:'')]) = ''GO:0000001'' \<and>
   format_accession (format_accession ''GO_0000001'' (Some [(''go'', ''GO:'')]))
     (Some [(''go'', ''GO:'')]) = ''0000001''"
  by (simp add: format_accession_def strip_namespaces_def str_replace_def startswith_def)

text \<open>
  C4 (amended): \<open>format_accession\<close> is idempotent on every input and namespace map
  such that each bound URI has a character, other than the colon, that does not occur
  in the input once the bound URIs are deleted from it. This is the case of a namespace
  URI with a \<open>/\<close> or \<open>#\<close> and an identifier \<open>PREFIX_LOCAL\<close>, \<open>PREFIX:LOCAL\<close> or
  \<open>_:LOCAL\<close> of letters and digits, bare or behind a bound URI, and of every input
  when there is no namespace map.
\<close>

theorem format_accession_idempotent:
  assumes "\<forall>v \<in> set (dict_values nsmap).
             \<exists>c \<in> set v. c \<noteq> CHR '':'' \<and> c \<notin> set (strip_namespaces nsmap x)"
  shows "format_accession (format_accession x nsmap) nsmap = format_accession x nsmap"
proof -
  define s where "s = strip_namespaces nsmap x"
  define r where "r = format_accession x nsmap"
  have r: "r = (if startswith s ''_'' then s else colonize s)"
    by (simp add: r_def s_def format_accession_shape)
  have "set r \<subseteq> insert (CHR '':'') (set s)"
    using set_colonize [of s] by (auto simp: r)
  with assms have "\<forall>v \<in> set (dict_values nsmap). \<exists>c \<in> set v. c \<notin> set r"
    unfolding s_def by blast
  then have stable: "strip_namespaces nsmap r = r"
    unfolding strip_namespaces_def by (rule fold_strip_absent)
  have "format_accession r nsmap = r"
    by (simp add: format_accession_shape stable)
       (auto simp: r colonize_idem startswith_colonize)
  then show ?thesis by (simp add: r_def)
qed

theorem format_accession_idempotent_witness:
  "format_accession
     (format_accession ''http://purl.obolibrary.org/obo/IAO_0000601''
        (Some [(''obo'', ''http://purl.obolibrary.org/obo/'')]))
     (Some [(''obo'', ''http://purl.obolibrary.org/obo/'')])
   = format_accession ''http://purl.obolibrary.org/obo/IAO_0000601''
       (Some [(''obo'', ''http://purl.obolibrary.org/obo/'')]) \<and>
   format_accession ''http://purl.obolibrary.org/obo/IAO_0000601''
       (Some [(''obo'', ''http://purl.obolibrary.org/obo/'')]) = ''IAO:0000601''"
proof -
  let ?ns = "Some [(''obo'', ''http://purl.obolibrary.org/obo/'')]"
  let ?x = "''http://purl.obolibrary.org/obo/IAO_0000601''"
  have stripped: "strip_namespaces ?ns ?x = ''IAO_0000601''"
    by (simp add: strip_namespaces_def str_replace_def startswith_def)
  have slash: "\<forall>v \<in> set (dict_values ?ns).
      \<exists>c \<in> set v. c \<noteq> CHR '':'' \<and> c \<notin> set (strip_namespaces ?ns ?x)"
    unfolding stripped by simp
  have val: "format_accession ?x ?ns = ''IAO:0000601''"
    by (simp add: format_accession_def stripped str_replace_def startswith_def)
  from format_accession_idempotent [OF slash] val show ?thesis by simp
qed

section \<open>Lemmas on the parsers, the classifier and the term table\<close>


lemma makeTree_loop_append:
  "Failed \<notin> set A \<Longrightarrow>
     makeTree_loop ns t (A @ B) = makeTree_loop ns (makeTree_loop ns t A) B"
proof (induction A arbitrary: t)
  case Nil
  then show ?case by simp
next
  case (Cons r A)
  then show ?case by (cases r) (simp_all add: Let_def)
qed

lemma makeTree_loop_add:
  "Failed \<notin> set A \<Longrightarrow> makeTree_loop ns t A = t ++ makeTree_loop ns Map.empty A"
proof (induction A arbitrary: t)
  case Nil
  then show ?case by simp
next
  case (Cons r A)
  show ?case
  proof (cases r)
    case (Classified tid d)
    define k where "k = format_accession tid (Some ns)"
    define v where "v = Term k (name d)
       (map (\<lambda>(k, v). (Relationship k, map (\<lambda>x. format_accession x (Some ns)) v)) (relations d))
       (desc d) (other d)"
    have A: "Failed \<notin> set A" using Cons.prems by simp
    have step: "makeTree_loop ns u (r # A) = makeTree_loop ns (u(k \<mapsto> v)) A" for u
      by (simp add: Classified Let_def k_def v_def)
    have "makeTree_loop ns t (r # A) = t(k \<mapsto> v) ++ makeTree_loop ns Map.empty A"
      unfolding step by (rule Cons.IH [OF A])
    also have "\<dots> = t ++ (Map.empty(k \<mapsto> v) ++ makeTree_loop ns Map.empty A)"
      by (metis map_add_assoc map_add_empty map_add_upd)
    also have "Map.empty(k \<mapsto> v) ++ makeTree_loop ns Map.empty A
         = makeTree_loop ns Map.empty (r # A)"
      unfolding step by (rule Cons.IH [OF A, symmetric])
    finally show ?thesis .
  next
    case Failed
    then show ?thesis using Cons.prems by simp
  qed
qed

lemma dom_makeTree_loop:
  "Failed \<notin> set A \<Longrightarrow> dom (makeTree_loop ns t A) = dom t \<union> result_ids ns A"
proof (induction A arbitrary: t)
  case Nil
  then show ?case by simp
next
  case (Cons r A)
  then show ?case by (cases r) (auto simp: Let_def)
qed

lemma makeTree_loop_commute:
  assumes "Failed \<notin> set A" and "Failed \<notin> set B"
    and "result_ids ns A \<inter> result_ids ns B = {}"
  shows "makeTree_loop ns t (A @ B) = makeTree_loop ns t (B @ A)"
proof -
  let ?a = "makeTree_loop ns Map.empty A" and ?b = "makeTree_loop ns Map.empty B"
  have "dom ?a \<inter> dom ?b = {}"
    using assms by (simp add: dom_makeTree_loop)
  then have comm: "?a ++ ?b = ?b ++ ?a"
    by (rule map_add_comm)
  have "makeTree_loop ns t (A @ B) = (t ++ ?a) ++ ?b"
    using assms makeTree_loop_append [of A ns t B]
      makeTree_loop_add [of A ns t] makeTree_loop_add [of B ns "makeTree_loop ns t A"]
    by simp
  also have "\<dots> = (t ++ ?b) ++ ?a"
    by (metis comm map_add_assoc)
  also have "\<dots> = makeTree_loop ns t (B @ A)"
    using assms makeTree_loop_append [of B ns t A]
      makeTree_loop_add [of B ns t] makeTree_loop_add [of A ns "makeTree_loop ns t B"]
    by simp
  finally show ?thesis .
qed

lemma makeTree_loop_last:
  assumes "Failed \<notin> set A"
  shows "makeTree_loop ns t (A @ [Classified tid d]) (format_accession tid (Some ns)) =
     Some (Term (format_accession tid (Some ns)) (name d)
       (map (\<lambda>(k, v). (Relationship k, map (\<lambda>x. format_accession x (Some ns)) v)) (relations d))
       (desc d) (other d))"
  using makeTree_loop_append [OF assms, of ns t "[Classified tid d]"] by (simp add: Let_def)
lemma classifier_parse_lines_eq: "classifier_parse_lines p ls = parse_lines p ls"
  by (induction ls arbitrary: p)
     (simp_all add: Let_def split: option.splits pyval.splits prod.splits)

lemma classifier_post_pass_eq: "classifier_post_pass p = post_pass p"
  by (simp add: classifier_post_pass_def post_pass_def)

lemma parse_comment_equiv: "classifier_parse_comment c = parse_comment c"
  by (cases c)
     (simp_all add: classifier_parse_lines_eq classifier_post_pass_eq empty_parsed_def
        split: sum.splits)

lemma split_once_contains: "contains sep s \<Longrightarrow> sep \<noteq> [] \<Longrightarrow> split_once sep s \<noteq> None"
  by (induction s) (auto split: option.splits)

lemma list_all_update:
  "list_all P d \<Longrightarrow> P (k, v) \<Longrightarrow> list_all P (AList.update k v d)"
  by (induction d) auto

lemma lists_only_lookup:
  "list_all (\<lambda>kv. case snd kv of StrList vs \<Rightarrow> True | Str s \<Rightarrow> False) d \<Longrightarrow>
     map_of d k \<noteq> Some (Str s)"
  by (induction d) (auto split: if_splits)

lemma parse_lines_returns: "lists_only p \<Longrightarrow> \<exists>q. parse_lines p ls = Inr q"
proof (induction ls arbitrary: p)
  case Nil
  then show ?case by simp
next
  case (Cons l ls)
  show ?case
  proof (cases "startswith (strip l) ''Functional form:''")
    case True
    then show ?thesis by (simp add: Let_def split: option.splits)
  next
    case nff: False
    show ?thesis
    proof (cases "startswith (strip l) ''def:''")
      case True
      have "lists_only (p\<lparr>desc := Some (Str (strip (last (str_split ''def:'' (strip l)))))\<rparr>)"
        using Cons.prems by (simp add: lists_only_def)
      from Cons.IH [OF this] show ?thesis using nff True by (simp add: Let_def)
    next
      case ndef: False
      show ?thesis
      proof (cases "contains '': '' (strip l)")
        case True
        then obtain a b where ab: "split_once '': '' (strip l) = Some (a, b)"
          using split_once_contains [of "'': ''" "strip l"] by auto
        show ?thesis
        proof (cases "other p")
          case None
          have "lists_only (p\<lparr>other := Some [(strip a, StrList [strip b])]\<rparr>)"
            by (simp add: lists_only_def)
          from Cons.IH [OF this] show ?thesis
            using nff ndef True ab None by (simp add: Let_def)
        next
          case (Some d)
          have inv: "list_all (\<lambda>kv. case snd kv of StrList vs \<Rightarrow> True | Str s \<Rightarrow> False) d"
            using Cons.prems Some by (simp add: lists_only_def)
          show ?thesis
          proof (cases "map_of d (strip a)")
            case None
            have "lists_only (p\<lparr>other := Some (AList.update (strip a) (StrList [strip b]) d)\<rparr>)"
              using inv by (simp add: lists_only_def list_all_update)
            from Cons.IH [OF this] show ?thesis
              using nff ndef True ab Some None by (simp add: Let_def)
          next
            case found: (Some v)
            then obtain vs where v: "v = StrList vs"
              using lists_only_lookup [OF inv, of "strip a"] by (cases v) auto
            have "lists_only
              (p\<lparr>other := Some (AList.update (strip a) (StrList (vs @ [strip b])) d)\<rparr>)"
              using inv by (simp add: lists_only_def list_all_update)
            from Cons.IH [OF this] show ?thesis
              using nff ndef True ab Some found v by (simp add: Let_def)
          qed
        qed
      next
        case False
        then show ?thesis
          using nff ndef Cons.IH [OF Cons.prems] by (simp add: Let_def)
      qed
    qed
  qed
qed

lemma parse_comment_returns: "\<exists>q. parse_comment c = Inr q"
proof (cases c)
  case None
  then show ?thesis by simp
next
  case (Some s)
  have "lists_only empty_parsed" by (simp add: lists_only_def empty_parsed_def)
  from parse_lines_returns [OF this, of "str_split newline s"] Some
  show ?thesis by auto
qed

lemma dict_update_keeps [simp]:
  "name (dict_update d p) = name d" "relations (dict_update d p) = relations d"
  by (simp_all add: dict_update_def Let_def split: option.splits)










lemma post_pass_keeps_desc: "desc p \<noteq> None \<Longrightarrow> post_pass p = p"
  by (auto simp: post_pass_def split: option.splits)

lemma parse_lines_keeps_desc:
  "desc p \<noteq> None \<Longrightarrow> parse_lines p ls = Inr q \<Longrightarrow> desc q \<noteq> None"
proof (induction ls arbitrary: p)
  case Nil
  then show ?case by simp
next
  case (Cons l ls)
  from Cons.prems show ?case
    by (auto simp: Let_def dest!: Cons.IH [rotated]
          split: if_splits option.splits prod.splits pyval.splits)
qed

lemmas string_eval = startswith_def str_replace_def strip_def is_space_def whitespace_def
  newline_def

lemmas accession_eval = format_accession_def strip_namespaces_def string_eval



section \<open>Entity setters, equality and hash\<close>

lemma filter_not_empty: "filter (\<lambda>x. \<not> P x) xs = [] \<longleftrightarrow> list_all P xs"
  by (induction xs) auto

lemma set_synonyms_checked:
  assumes "data_ref e = Some d"
  shows "list_all is_Synonym xs \<Longrightarrow> set_synonyms e (PySet xs) = Inr (d\<lparr>synonyms := set xs\<rparr>)"
    and "\<not> list_all is_Synonym xs \<Longrightarrow> \<exists>tn. set_synonyms e (PySet xs) = Inl (TypeError tn)"
  using assms filter_not_empty [of is_Synonym xs]
  by (auto simp: set_synonyms_def split: list.splits)

lemma set_subsets_type_checked:
  "\<not> list_all is_str xs \<Longrightarrow> \<exists>tn. set_subsets e (PySet xs) = Inl (TypeError tn)"
  using filter_not_empty [of is_str xs]
  by (auto simp: set_subsets_def split: list.splits)

text \<open>
  C1: the claim has every set-valued field reject a set with an element of the wrong kind
  and accept a set of the declared kind. Evaluated on a live view: the \<open>alternate_ids\<close>
  setter raises TypeError for a set of one string and stores a set of one integer (its
  filter keeps the elements that are strings, where the setters of \<open>subsets\<close> and
  \<open>synonyms\<close> keep those that are not); the \<open>xrefs\<close> setter raises NameError for a
  set of one Xref.
\<close>

theorem alternate_ids_xrefs_setters_evaluated:
  "set_alternate_ids \<lparr>ontology_ref = Some ont, data_ref = Some d\<rparr>
     (PySet [EStr ''GO:0000002'']) = Inl (TypeError ''str'') \<and>
   set_alternate_ids \<lparr>ontology_ref = Some ont, data_ref = Some d\<rparr>
     (PySet [EInt 1]) = Inr (d\<lparr>alternate_ids := {EInt 1}\<rparr>) \<and>
   set_xrefs \<lparr>ontology_ref = Some ont, data_ref = Some d\<rparr>
     (PySet [EXref x]) = Inl (NameError ''synonyms'')"
  by (simp add: set_alternate_ids_def set_xrefs_def)

lemma check_subsets_ok:
  "ontology_ref e = Some ont \<Longrightarrow> set ids \<subseteq> set (subsetdefs ont) \<Longrightarrow>
     check_subsets e (map EStr ids) = Inr ()"
  by (induction ids) (auto simp: list_ex_iff)

lemma check_subsets_bad:
  "ontology_ref e = Some ont \<Longrightarrow> \<not> set ids \<subseteq> set (subsetdefs ont) \<Longrightarrow>
     \<exists>x. x \<in> set ids \<and> x \<notin> set (subsetdefs ont) \<and>
         check_subsets e (map EStr ids) = Inl (ValueError x)"
  by (induction ids) (auto simp: list_ex_iff)

lemma filter_not_str: "filter (\<lambda>x. \<not> is_str x) (map EStr ids) = []"
  by (induction ids) auto

text \<open>
  C2: on a live view (both referents alive), assigning to \<open>subsets\<close> a set or frozenset
  of strings one of which is the id of no SubsetDef of the ontology raises the error of
  the validation (in the source a ValueError) for such an id; when every id is
  declared the assignment stores the set, and reading \<open>subsets\<close> gives exactly it.
\<close>

theorem subsets_validated:
  assumes "ontology_ref e = Some ont" and "data_ref e = Some d"
    and "arg = PySet (map EStr ids) \<or> arg = PyFrozenSet (map EStr ids)"
  shows "(\<not> set ids \<subseteq> set (subsetdefs ont) \<longrightarrow>
            (\<exists>x. x \<in> set ids \<and> x \<notin> set (subsetdefs ont) \<and>
                 set_subsets e arg = Inl (ValueError x))) \<and>
         (set ids \<subseteq> set (subsetdefs ont) \<longrightarrow>
            set_subsets e arg = Inr (d\<lparr>subsets := EStr ` set ids\<rparr>) \<and>
            get_subsets (e\<lparr>data_ref := Some (d\<lparr>subsets := EStr ` set ids\<rparr>)\<rparr>)
              = Inr (EStr ` set ids))"
proof (intro conjI impI)
  assume "\<not> set ids \<subseteq> set (subsetdefs ont)"
  from check_subsets_bad [OF assms(1) this]
  show "\<exists>x. x \<in> set ids \<and> x \<notin> set (subsetdefs ont) \<and>
                 set_subsets e arg = Inl (ValueError x)"
    using assms(3) by (auto simp: set_subsets_def filter_not_str)
next
  assume ok: "set ids \<subseteq> set (subsetdefs ont)"
  from check_subsets_ok [OF assms(1) ok]
  show "set_subsets e arg = Inr (d\<lparr>subsets := EStr ` set ids\<rparr>)"
    using assms(2,3) by (auto simp: set_subsets_def filter_not_str)
  show "get_subsets (e\<lparr>data_ref := Some (d\<lparr>subsets := EStr ` set ids\<rparr>)\<rparr>)
              = Inr (EStr ` set ids)"
    by (simp add: get_subsets_def)
qed

theorem subsets_validated_witness:
  "set_subsets
     \<lparr>ontology_ref = Some \<lparr>subsetdefs = [''goslim_generic'', ''goslim_plant'']\<rparr>,
      data_ref = Some \<lparr>data_id = ''GO:0000001'', alternate_ids = {}, subsets = {},
                        synonyms = {}, xrefs = {}\<rparr>\<rparr>
     (PySet (map EStr [''goslim_plant'']))
   = Inr \<lparr>data_id = ''GO:0000001'', alternate_ids = {}, subsets = EStr ` set [''goslim_plant''],
          synonyms = {}, xrefs = {}\<rparr> \<and>
   (\<exists>x. x \<in> set [''undeclared''] \<and>
     set_subsets
       \<lparr>ontology_ref = Some \<lparr>subsetdefs = [''goslim_generic'', ''goslim_plant'']\<rparr>,
        data_ref = Some \<lparr>data_id = ''GO:0000001'', alternate_ids = {}, subsets = {},
                          synonyms = {}, xrefs = {}\<rparr>\<rparr>
       (PySet (map EStr [''undeclared''])) = Inl (ValueError x))"
proof -
  let ?ont = "\<lparr>subsetdefs = [''goslim_generic'', ''goslim_plant'']\<rparr>"
  let ?d = "\<lparr>data_id = ''GO:0000001'', alternate_ids = {}, subsets = {},
             synonyms = {}, xrefs = {}\<rparr>"
  let ?e = "\<lparr>ontology_ref = Some ?ont, data_ref = Some ?d\<rparr>"
  have live: "ontology_ref ?e = Some ?ont" "data_ref ?e = Some ?d"
    by simp_all
  have declared: "set [''goslim_plant''] \<subseteq> set (subsetdefs ?ont)"
    by simp
  have undeclared: "\<not> set [''undeclared''] \<subseteq> set (subsetdefs ?ont)"
    by simp
  have good: "set_subsets ?e (PySet (map EStr [''goslim_plant'']))
      = Inr (?d\<lparr>subsets := EStr ` set [''goslim_plant'']\<rparr>)"
    using subsets_validated [OF live, of "PySet (map EStr [''goslim_plant''])" "[''goslim_plant'']"]
      declared by blast
  have bad: "\<exists>x. x \<in> set [''undeclared''] \<and>
      set_subsets ?e (PySet (map EStr [''undeclared''])) = Inl (ValueError x)"
    using subsets_validated [OF live, of "PySet (map EStr [''undeclared''])" "[''undeclared'']"]
      undeclared by blast
  from good bad show ?thesis by simp
qed

text \<open>
  C10: for two live views, over whatever ontologies and records, \<open>==\<close> holds exactly
  when the ids are equal; views with equal ids have equal hashes (the hash is that of
  the id); and \<open>==\<close> against a value that is not an Entity is False, not an error.
\<close>

theorem entity_identity:
  assumes "data_ref e1 = Some d1" and "data_ref e2 = Some d2"
  shows "entity_eq e1 (EntityObj e2) = Inr (data_id d1 = data_id d2) \<and>
         (data_id d1 = data_id d2 \<longrightarrow> entity_hash h e1 = entity_hash h e2) \<and>
         entity_hash h e1 = Inr (h (data_id d1)) \<and>
         entity_eq e1 (OtherObj x) = Inr False"
  using assms by (simp add: entity_eq_def entity_id_def entity_hash_def)

theorem entity_identity_witness:
  "entity_eq
     \<lparr>ontology_ref = Some \<lparr>subsetdefs = []\<rparr>,
      data_ref = Some \<lparr>data_id = ''GO:0000001'', alternate_ids = {}, subsets = {},
                        synonyms = {}, xrefs = {}\<rparr>\<rparr>
     (EntityObj
        \<lparr>ontology_ref = Some \<lparr>subsetdefs = [''goslim_plant'']\<rparr>,
         data_ref = Some \<lparr>data_id = ''GO:0000001'', alternate_ids = {EStr ''GO:0000009''},
                           subsets = {}, synonyms = {}, xrefs = {}\<rparr>\<rparr>)
     = Inr True \<and>
   entity_hash (\<lambda>s. int (length s))
     \<lparr>ontology_ref = Some \<lparr>subsetdefs = []\<rparr>,
      data_ref = Some \<lparr>data_id = ''GO:0000001'', alternate_ids = {}, subsets = {},
                        synonyms = {}, xrefs = {}\<rparr>\<rparr>
   = entity_hash (\<lambda>s. int (length s))
       \<lparr>ontology_ref = Some \<lparr>subsetdefs = [''goslim_plant'']\<rparr>,
        data_ref = Some \<lparr>data_id = ''GO:0000001'', alternate_ids = {EStr ''GO:0000009''},
                          subsets = {}, synonyms = {}, xrefs = {}\<rparr>\<rparr> \<and>
   entity_eq
     \<lparr>ontology_ref = Some \<lparr>subsetdefs = []\<rparr>,
      data_ref = Some \<lparr>data_id = ''GO:0000001'', alternate_ids = {}, subsets = {},
                        synonyms = {}, xrefs = {}\<rparr>\<rparr>
     (OtherObj (EStr ''GO:0000001'')) = Inr False"
proof -
  let ?d1 = "\<lparr>data_id = ''GO:0000001'', alternate_ids = {}, subsets = {},
             synonyms = {}, xrefs = {}\<rparr>"
  let ?d2 = "\<lparr>data_id = ''GO:0000001'', alternate_ids = {EStr ''GO:0000009''},
             subsets = {}, synonyms = {}, xrefs = {}\<rparr>"
  let ?e1 = "\<lparr>ontology_ref = Some \<lparr>subsetdefs = []\<rparr>, data_ref = Some ?d1\<rparr>"
  let ?e2 = "\<lparr>ontology_ref = Some \<lparr>subsetdefs = [''goslim_plant'']\<rparr>, data_ref = Some ?d2\<rparr>"
  have live: "data_ref ?e1 = Some ?d1" "data_ref ?e2 = Some ?d2"
    by simp_all
  have same: "data_id ?d1 = data_id ?d2"
    by simp
  from entity_identity [OF live, of "\<lambda>s. int (length s)" "EStr ''GO:0000001''"]
  have "entity_eq ?e1 (EntityObj ?e2) = Inr (data_id ?d1 = data_id ?d2)"
    and "data_id ?d1 = data_id ?d2 \<longrightarrow>
           entity_hash (\<lambda>s. int (length s)) ?e1 = entity_hash (\<lambda>s. int (length s)) ?e2"
    and "entity_eq ?e1 (OtherObj (EStr ''GO:0000001'')) = Inr False"
    by blast+
  with same show ?thesis by simp
qed

section \<open>Comment extraction\<close>

text \<open>
  C5: evaluated on the comments of the claim. After \<open>def: foo\<close> and \<open>altdef: bar\<close>
  the description is the string \<open>foo\<close> and \<open>altdef\<close> stays in \<open>other\<close>. For
  \<open>altdef: bar\<close> alone, and for \<open>tempdef: baz\<close> followed by \<open>altdef: bar\<close>, the
  key \<open>altdef\<close> (and \<open>tempdef\<close>) is removed from \<open>other\<close> and \<open>altdef\<close> wins,
  but the description is the list of the values of \<open>altdef\<close>, not the string \<open>bar\<close>.
\<close>

theorem parse_comment_altdef_evaluated:
  "parse_comment (Some (''def: foo'' @ newline @ ''altdef: bar'')) =
     Inr \<lparr>desc = Some (Str ''foo''), other = Some [(''altdef'', StrList [''bar''])]\<rparr> \<and>
   parse_comment (Some ''altdef: bar'') =
     Inr \<lparr>desc = Some (StrList [''bar'']), other = Some []\<rparr> \<and>
   parse_comment (Some (''tempdef: baz'' @ newline @ ''altdef: bar'')) =
     Inr \<lparr>desc = Some (StrList [''bar'']), other = Some []\<rparr> \<and>
   StrList [''bar''] \<noteq> Str ''bar''"
  by (simp add: empty_parsed_def post_pass_def string_eval)

text \<open>
  C9: the function of \<open>pronto.utils\<close> and the static method of the classifier give
  the same result on every string and on \<open>None\<close>, and neither raises.
\<close>

theorem parse_comment_implementations_agree:
  "classifier_parse_comment c = parse_comment c \<and>
   returns (parse_comment c) \<and> returns (classifier_parse_comment c)"
proof -
  obtain q where "parse_comment c = Inr q"
    using parse_comment_returns by blast
  then show ?thesis by (simp add: parse_comment_equiv)
qed

section \<open>The term table\<close>

text \<open>
  C6, as the claim states it, fails: \<open>makeTree\<close> stores a record by the assignment
  \<open>self.terms[tid] = Term(tid, **d)\<close>, so for two records of one id the later replaces
  the earlier, edge list included. Two records of \<open>GO:0000001\<close> that both leave the name
  and the description unset, one with an edge to \<open>GO:0000002\<close> and one with an edge
  to \<open>GO:0000003\<close>: either order keeps the edge of the second record only.
\<close>

theorem makeTree_merge_counterexample:
  "map_option term_relations
     (makeTree_loop [] Map.empty
        ([Classified ''GO:0000001''
            \<lparr>desc = Some (Str []), other = None, name = Some [],
             relations = [(''is_a'', [''GO:0000002''])]\<rparr>] @
         [Classified ''GO:0000001''
            \<lparr>desc = Some (Str []), other = None, name = Some [],
             relations = [(''is_a'', [''GO:0000003''])]\<rparr>])
        ''GO:0000001'')
     = Some [(Relationship ''is_a'', [''GO:0000003''])] \<and>
   map_option term_relations
     (makeTree_loop [] Map.empty
        ([Classified ''GO:0000001''
            \<lparr>desc = Some (Str []), other = None, name = Some [],
             relations = [(''is_a'', [''GO:0000003''])]\<rparr>] @
         [Classified ''GO:0000001''
            \<lparr>desc = Some (Str []), other = None, name = Some [],
             relations = [(''is_a'', [''GO:0000002''])]\<rparr>])
        ''GO:0000001'')
     = Some [(Relationship ''is_a'', [''GO:0000002''])]"
  by (simp add: accession_eval Let_def)

text \<open>
  C6 (amended): storing classified records in the term table is last-write-wins per id:
  after the records of \<open>A\<close> and then a record for \<open>tid\<close>, the table holds under the
  normalised \<open>tid\<close> the term built from that record alone, whatever \<open>A\<close> stored there
  (no field is kept from the earlier term, none is unioned). Storing the records of
  \<open>A\<close> then those of \<open>B\<close> gives the same table as \<open>B\<close> then \<open>A\<close> when the two lists
  write disjoint sets of ids. \<open>A\<close> and \<open>B\<close> are lists of records, without the pair
  \<open>(None, None)\<close>.
\<close>

theorem makeTree_last_write_wins:
  assumes "Failed \<notin> set A" and "Failed \<notin> set B"
  shows "makeTree_loop ns t (A @ [Classified tid d]) (format_accession tid (Some ns)) =
           Some (Term (format_accession tid (Some ns)) (name d)
             (map (\<lambda>(k, v). (Relationship k, map (\<lambda>x. format_accession x (Some ns)) v))
                (relations d))
             (desc d) (other d)) \<and>
         (result_ids ns A \<inter> result_ids ns B = {} \<longrightarrow>
            makeTree_loop ns t (A @ B) = makeTree_loop ns t (B @ A))"
  using makeTree_loop_last [OF assms(1)] makeTree_loop_commute [OF assms] by blast

theorem makeTree_last_write_wins_witness:
  "makeTree_loop [] Map.empty
     ([Classified ''GO:0000001''
         \<lparr>desc = Some (Str []), other = None, name = Some ''a'', relations = []\<rparr>] @
      [Classified ''GO:0000002''
         \<lparr>desc = Some (Str []), other = None, name = Some ''b'', relations = []\<rparr>])
   = makeTree_loop [] Map.empty
     ([Classified ''GO:0000002''
         \<lparr>desc = Some (Str []), other = None, name = Some ''b'', relations = []\<rparr>] @
      [Classified ''GO:0000001''
         \<lparr>desc = Some (Str []), other = None, name = Some ''a'', relations = []\<rparr>])"
proof -
  let ?A = "[Classified ''GO:0000001''
         \<lparr>desc = Some (Str []), other = None, name = Some ''a'', relations = []\<rparr>]"
  let ?B = "[Classified ''GO:0000002''
         \<lparr>desc = Some (Str []), other = None, name = Some ''b'', relations = []\<rparr>]"
  have records: "Failed \<notin> set ?A" "Failed \<notin> set ?B"
    by simp_all
  have disjoint: "result_ids [] ?A \<inter> result_ids [] ?B = {}"
    by (simp add: accession_eval)
  from makeTree_last_write_wins [OF records, of "[]" Map.empty] disjoint
  show ?thesis by blast
qed

section \<open>Lemmas on the classification, the worker loop and the loop of makeTree\<close>















lemma Failed_emitted: "Failed \<notin> set (emitted fs queue)"
  by (auto simp: emitted_def split: option.splits)







section \<open>Classification\<close>






section \<open>The worker loop\<close>




end
